theory Spec2Isabelle
  imports Complex_Main "HOL-Library.Sublist"
begin

section \<open>Text normalisation\<close>

text \<open>
  Python strings are sequences of Unicode code points, so a text is a list of code points
  (natural numbers).  String literals of the source are written with \<open>lit\<close>, which
  reads an ASCII literal as its code points.
\<close>

type_synonym codepoint = nat
type_synonym pystr = "codepoint list"

definition lit :: "string \<Rightarrow> pystr" where
  "lit s = map of_char s"

definition SHY :: codepoint where \<comment> \<open>U+00AD, soft hyphen\<close>
  "SHY = 173"

definition ZWSP :: codepoint where \<comment> \<open>U+200B, zero-width space\<close>
  "ZWSP = 8203"

definition SP :: codepoint where \<comment> \<open>\<open>' '\<close>\<close>
  "SP = 32"

definition NL :: codepoint where \<comment> \<open>\<open>'\n'\<close>\<close>
  "NL = 10"

definition AMP :: codepoint where \<comment> \<open>\<open>'&'\<close>\<close>
  "AMP = 38"

definition LT :: codepoint where \<comment> \<open>\<open>'<'\<close>\<close>
  "LT = 60"

definition GT :: codepoint where \<comment> \<open>\<open>'>'\<close>\<close>
  "GT = 62"

definition nbsp :: pystr where \<comment> \<open>\<open>'&nbsp;'\<close>\<close>
  "nbsp = lit ''&nbsp;''"

text \<open>
  \<open>s.replace(old, new)\<close> for a pattern \<open>old\<close> of one character: every occurrence
  is replaced, left to right.
\<close>

fun str_replace :: "codepoint \<Rightarrow> pystr \<Rightarrow> pystr \<Rightarrow> pystr" where
  "str_replace old new [] = []"
| "str_replace old new (c # cs) =
     (if c = old then new @ str_replace old new cs else c # str_replace old new cs)"

text \<open>
  \<open>xml.sax.saxutils.escape(data)\<close> with no extra entities: three replacements in
  this order, the ampersand first.
\<close>

definition escape :: "pystr \<Rightarrow> pystr" where
  "escape data =
     str_replace LT (lit ''&lt;'')
       (str_replace GT (lit ''&gt;'')
         (str_replace AMP (lit ''&amp;'') data))"

text \<open>
  \<open>re.sub(r' {2,}', lambda m: '&nbsp;' * len(m.group()), s)\<close>: scanning from the
  left, a position where two or more spaces start matches greedily (all the spaces that
  follow), the match is replaced by as many markers as it has spaces and the scan goes on
  behind it; at any other position the character is kept.
\<close>

function replace_spaces :: "pystr \<Rightarrow> pystr" where
  "replace_spaces s =
     (let n = length (takeWhile (\<lambda>c. c = SP) s) in
      if 2 \<le> n then concat (replicate n nbsp) @ replace_spaces (drop n s)
      else (case s of [] \<Rightarrow> [] | c # cs \<Rightarrow> c # replace_spaces cs))"
  by pat_completeness auto
termination
proof (relation "measure length")
  show "wf (measure length)" by simp
next
  fix s :: pystr and n
  assume n: "n = length (takeWhile (\<lambda>c. c = SP) s)" and two: "2 \<le> n"
  have "n \<le> length s" unfolding n by (rule length_takeWhile_le)
  with two show "(drop n s, s) \<in> measure length" by simp
next
  fix s :: pystr and n c cs
  assume "s = c # cs"
  then show "(cs, s) \<in> measure length" by simp
qed

declare replace_spaces.simps [simp del]

text \<open>\<open>s.split('\n')\<close>: the pieces between the line feeds, empty pieces included.\<close>

fun split_nl :: "pystr \<Rightarrow> pystr list" where
  "split_nl [] = [[]]"
| "split_nl (c # cs) =
     (if c = NL then [] # split_nl cs
      else (case split_nl cs of [] \<Rightarrow> [[c]] | p # ps \<Rightarrow> (c # p) # ps))"

text \<open>
  The text processing of \<open>text_to_images\<close> and \<open>convert_text_to_images\<close> (the same
  three lines in both):
  \<^verbatim>\<open>
  text = text.replace(SHY, '').replace(ZWSP, '')
  processed_text = replace_spaces(escape(text))
  parts = processed_text.split('\n')
  \<close>
\<close>

definition strip_invisible :: "pystr \<Rightarrow> pystr" where
  "strip_invisible t = str_replace ZWSP [] (str_replace SHY [] t)"

definition processed_text :: "pystr \<Rightarrow> pystr" where
  "processed_text t = replace_spaces (escape (strip_invisible t))"

definition parts :: "pystr \<Rightarrow> pystr list" where
  "parts t = split_nl (processed_text t)"

text \<open>\<open>sep.join(ps)\<close>.\<close>

fun str_join :: "'a list \<Rightarrow> 'a list list \<Rightarrow> 'a list" where
  "str_join sep [] = []"
| "str_join sep [p] = p"
| "str_join sep (p # q # ps) = p @ sep @ str_join sep (q # ps)"

text \<open>
  The character-wise reading of \<open>escape\<close> that the specification gives: each of the three
  markup characters becomes its entity, every other character stays.
\<close>

definition esc_char :: "codepoint \<Rightarrow> pystr" where
  "esc_char c =
     (if c = AMP then lit ''&amp;'' else if c = LT then lit ''&lt;''
      else if c = GT then lit ''&gt;'' else [c])"

section \<open>Raster pages and the crop policies\<close>

text \<open>
  A PIL image: its size and its pixel rows, top row first.  The pixel type is left open;
  \<open>L\<close> below is the luminance \<open>img.convert("L")\<close> reads from a pixel (0 to 255).
\<close>

record 'p image =
  img_width :: nat
  img_height :: nat
  img_rows :: "'p list list"

definition wf_image :: "'p image \<Rightarrow> bool" where
  "wf_image img \<longleftrightarrow>
     length (img_rows img) = img_height img \<and>
     list_all (\<lambda>r. length r = img_width img) (img_rows img)"

text \<open>
  \<open>img.crop((left, upper, right, lower))\<close>: the pixels of columns \<open>left\<close> to
  \<open>right - 1\<close> and rows \<open>upper\<close> to \<open>lower - 1\<close>; the result has size
  \<open>(right - left, lower - upper)\<close>.  Every box the source builds lies inside the image.
\<close>

definition crop :: "'p image \<Rightarrow> nat \<times> nat \<times> nat \<times> nat \<Rightarrow> 'p image" where
  "crop img box =
     (case box of (left, upper, right, lower) \<Rightarrow>
        \<lparr>img_width = right - left, img_height = lower - upper,
         img_rows = map (\<lambda>row. take (right - left) (drop left row))
                      (take (lower - upper) (drop upper (img_rows img)))\<rparr>)"

text \<open>\<open>np.array(img.convert("L"))\<close>: the grid of luminances.\<close>

definition gray :: "('p \<Rightarrow> nat) \<Rightarrow> 'p image \<Rightarrow> nat list list" where
  "gray L img = map (map L) (img_rows img)"

text \<open>
  \<open>np.median\<close> of a flattened array: the middle value of the sorted values, the mean of
  the two middle values when their number is even, and \<open>nan\<close> (here \<open>None\<close>) for an
  empty array.
\<close>

definition median :: "nat list \<Rightarrow> rat option" where
  "median xs =
     (if xs = [] then None
      else let s = sort xs; n = length s in
        if odd n then Some (of_nat (s ! (n div 2)))
        else Some ((of_nat (s ! (n div 2 - 1)) + of_nat (s ! (n div 2))) / 2))"

text \<open>\<open>gray[:k, :k]\<close>, flattened.\<close>

definition patch :: "nat \<Rightarrow> nat list list \<Rightarrow> nat list" where
  "patch k g = concat (map (take k) (take k g))"

text \<open>
  \<^verbatim>\<open>
  bg_gray = np.median(gray[:k, :k])
  mask = np.abs(gray - bg_gray) > tolerance
  \<close>
  A comparison with \<open>nan\<close> is false.
\<close>

definition fg_mask :: "nat \<Rightarrow> nat \<Rightarrow> nat list list \<Rightarrow> bool list list" where
  "fg_mask k tolerance g =
     (case median (patch k g) of
        None \<Rightarrow> map (map (\<lambda>v. False)) g
      | Some bg_gray \<Rightarrow> map (map (\<lambda>v. \<bar>of_nat v - bg_gray\<bar> > of_nat tolerance)) g)"

text \<open>\<open>np.where(mask.any(axis=1))[0]\<close>: the indices of the rows with a set pixel.\<close>

definition any_rows :: "bool list list \<Rightarrow> nat list" where
  "any_rows msk = filter (\<lambda>i. list_ex (\<lambda>b. b) (msk ! i)) [0..<length msk]"

text \<open>\<open>np.where(mask.any(axis=0))[0]\<close>: the indices of the columns with a set pixel.\<close>

definition any_cols :: "nat \<Rightarrow> bool list list \<Rightarrow> nat list" where
  "any_cols w msk = filter (\<lambda>j. list_ex (\<lambda>row. row ! j) msk) [0..<w]"

text \<open>
  The content crop of \<open>convert_text_to_images\<close> (corner patch of 10, tolerance 8, margin
  10): the box it crops to, if it crops.
  \<^verbatim>\<open>
  if rows.size and cols.size:
      top = max(0, rows[0] - 10)
      bottom = min(img.height, rows[-1] + 10)
      left = max(0, cols[0] - 10)
      right = min(img.width, cols[-1] + 10)
      if bottom > top and right > left:
          img = img.crop((left, top, right, bottom))
  \<close>
\<close>

definition content_crop_box :: "('p \<Rightarrow> nat) \<Rightarrow> 'p image \<Rightarrow> (nat \<times> nat \<times> nat \<times> nat) option" where
  "content_crop_box L img =
     (let msk = fg_mask 10 8 (gray L img);
          rows = any_rows msk;
          cols = any_cols (img_width img) msk
      in if rows \<noteq> [] \<and> cols \<noteq> [] then
           let top = nat (max 0 (int (hd rows) - 10));
               bottom = min (img_height img) (last rows + 10);
               left = nat (max 0 (int (hd cols) - 10));
               right = min (img_width img) (last cols + 10)
           in if bottom > top \<and> right > left then Some (left, top, right, bottom) else None
         else None)"

definition content_crop :: "('p \<Rightarrow> nat) \<Rightarrow> 'p image \<Rightarrow> 'p image" where
  "content_crop L img =
     (case content_crop_box L img of None \<Rightarrow> img | Some box \<Rightarrow> crop img box)"

text \<open>
  The axis crop, the same in \<open>text_to_images\<close> and \<open>convert_text_to_images\<close> (corner
  patch of 2, tolerance 5).  The mask is computed once, before the width is trimmed.
  \<^verbatim>\<open>
  if auto_crop_width:
      cols = np.where(mask.any(axis=0))[0]
      if cols.size:
          rightmost_col = cols[-1] + 1
          right = min(img.width, rightmost_col + margin_x)
          img = img.crop((0, 0, right, img.height))
  if auto_crop_last_page and offset == num_pages:
      rows = np.where(mask.any(axis=1))[0]
      if rows.size:
          last_row = rows[-1]
          lower = min(img.height, last_row + margin_y)
          img = img.crop((0, 0, img.width, lower))
  \<close>
\<close>

definition width_trim :: "bool list list \<Rightarrow> nat \<Rightarrow> 'p image \<Rightarrow> 'p image" where
  "width_trim msk margin_x img =
     (let cols = any_cols (img_width img) msk in
      if cols \<noteq> [] then
        let rightmost_col = last cols + 1;
            right = min (img_width img) (rightmost_col + margin_x)
        in crop img (0, 0, right, img_height img)
      else img)"

definition vertical_trim :: "bool list list \<Rightarrow> nat \<Rightarrow> 'p image \<Rightarrow> 'p image" where
  "vertical_trim msk margin_y img =
     (let rows = any_rows msk in
      if rows \<noteq> [] then
        let last_row = last rows;
            lower = min (img_height img) (last_row + margin_y)
        in crop img (0, 0, img_width img, lower)
      else img)"

definition axis_crop ::
  "('p \<Rightarrow> nat) \<Rightarrow> bool \<Rightarrow> bool \<Rightarrow> nat \<Rightarrow> nat \<Rightarrow> nat \<Rightarrow> nat \<Rightarrow> 'p image \<Rightarrow> 'p image" where
  "axis_crop L auto_crop_width auto_crop_last_page margin_x margin_y offset num_pages img =
     (let msk = fg_mask 2 5 (gray L img);
          img1 = (if auto_crop_width then width_trim msk margin_x img else img);
          img2 = (if auto_crop_last_page \<and> offset = num_pages
                  then vertical_trim msk margin_y img1 else img1)
      in img2)"

text \<open>The crop step of one page in \<open>text_to_images\<close> (word2png_function.py).\<close>

definition crop_page ::
  "('p \<Rightarrow> nat) \<Rightarrow> bool \<Rightarrow> bool \<Rightarrow> nat \<Rightarrow> nat \<Rightarrow> nat \<Rightarrow> nat \<Rightarrow> 'p image \<Rightarrow> 'p image" where
  "crop_page L auto_crop_width auto_crop_last_page margin_x margin_y offset num_pages img =
     (if auto_crop_width \<or> (auto_crop_last_page \<and> offset = num_pages)
      then axis_crop L auto_crop_width auto_crop_last_page margin_x margin_y offset num_pages img
      else img)"

text \<open>
  The crop step of one page in \<open>convert_text_to_images\<close> (text_to_image.py): the content
  crop when \<open>auto_crop_to_content\<close> is set, \<open>elif\<close> the axis crop.
\<close>

definition crop_page_simple ::
  "('p \<Rightarrow> nat) \<Rightarrow> bool \<Rightarrow> bool \<Rightarrow> bool \<Rightarrow> nat \<Rightarrow> nat \<Rightarrow> nat \<Rightarrow> nat \<Rightarrow> 'p image \<Rightarrow> 'p image" where
  "crop_page_simple L auto_crop_to_content auto_crop_width auto_crop_last_page
       margin_x margin_y offset num_pages img =
     (if auto_crop_to_content then content_crop L img
      else if auto_crop_width \<or> (auto_crop_last_page \<and> offset = num_pages)
      then axis_crop L auto_crop_width auto_crop_last_page margin_x margin_y offset num_pages img
      else img)"

text \<open>
  A page is blank for a mask when the mask marks no pixel; the foreground of a page lies
  in a box when every marked pixel does.
\<close>

definition blank :: "bool list list \<Rightarrow> bool" where
  "blank msk \<longleftrightarrow> list_all (list_all (\<lambda>b. \<not> b)) msk"


text \<open>
  Two concrete pages of luminances: a white page of 24 by 2 pixels with one black pixel in
  row 1, column 12, and a white page of 4 by 3 pixels.
\<close>

definition page_dot :: "nat image" where
  "page_dot =
     \<lparr>img_width = 24, img_height = 2,
      img_rows = [replicate 24 255, replicate 12 255 @ [0] @ replicate 11 255]\<rparr>"

definition page_white :: "nat image" where
  "page_white = \<lparr>img_width = 4, img_height = 3, img_rows = replicate 3 (replicate 4 255)\<rparr>"

section \<open>Configuration layers\<close>

text \<open>
  A configuration is a Python dict from option names to values.  Values are the JSON
  values the source handles and the typed values it converts them to:
  \<open>VColor s\<close> is \<open>colors.HexColor(s)\<close>, \<open>VTuple s\<close> is
  \<open>tuple(map(float, s.split(',')))\<close>, \<open>VPage\<close> a page size of \<open>PAGE_SIZE_MAP\<close> and
  \<open>VAlign\<close> an alignment of \<open>ALIGN_MAP\<close>.
\<close>

datatype align = TA_LEFT | TA_CENTER | TA_RIGHT | TA_JUSTIFY

datatype page_size = A4 | LETTER | A3

datatype cval =
    VNone
  | VBool bool
  | VNum rat
  | VStr string
  | VColor string
  | VTuple string
  | VPage page_size
  | VAlign align

type_synonym config = "string \<rightharpoonup> cval"

definition ALIGN_MAP :: "string \<rightharpoonup> align" where
  "ALIGN_MAP =
     [''LEFT'' \<mapsto> TA_LEFT, ''CENTER'' \<mapsto> TA_CENTER, ''RIGHT'' \<mapsto> TA_RIGHT,
      ''JUSTIFY'' \<mapsto> TA_JUSTIFY]"

definition PAGE_SIZE_MAP :: "string \<rightharpoonup> page_size" where
  "PAGE_SIZE_MAP = [''A4'' \<mapsto> A4, ''LETTER'' \<mapsto> LETTER, ''A3'' \<mapsto> A3]"

text \<open>\<open>d.get(k, default)\<close>.\<close>

definition dict_get :: "('k \<rightharpoonup> 'v) \<Rightarrow> 'k \<Rightarrow> 'v \<Rightarrow> 'v" where
  "dict_get d k dflt = (case d k of None \<Rightarrow> dflt | Some v \<Rightarrow> v)"

text \<open>\<open>s.upper()\<close> on ASCII letters.\<close>

definition upper :: "string \<Rightarrow> string" where
  "upper s =
     map (\<lambda>c. let n = (of_char c :: nat) in if 97 \<le> n \<and> n \<le> 122 then char_of (n - 32) else c) s"


text \<open>
  The conversions of one option when its value is a string
  (\<open>if k in config and isinstance(config[k], str): config[k] = f(config[k])\<close>), reading
  the option from \<open>src\<close> and writing it to \<open>dst\<close>.
\<close>

definition convert_str ::
  "string \<Rightarrow> (string \<Rightarrow> cval) \<Rightarrow> config \<Rightarrow> config \<Rightarrow> config" where
  "convert_str k f src dst = (case src k of Some (VStr s) \<Rightarrow> dst(k \<mapsto> f s) | _ \<Rightarrow> dst)"

definition to_align :: "string \<Rightarrow> cval" where
  "to_align s = VAlign (dict_get ALIGN_MAP s TA_JUSTIFY)"



text \<open>
  The layers of \<open>convert_text_to_images\<close>.  The call arguments, defaults of the
  signature included, are one dict:
  \<^verbatim>\<open>
  base_config.update({'font-path': font_path, 'font-size': font_size, 'dpi': dpi,
      'page-size': PAGE_SIZE_MAP.get(page_size.upper(), A4),
      'margin-x': margin, 'margin-y': margin,
      'font-color': colors.HexColor(text_color),
      'page-bg-color': colors.HexColor(bg_color),
      'para-bg-color': colors.HexColor(bg_color),
      'para-border-color': colors.HexColor(bg_color),
      'alignment': ALIGN_MAP.get(alignment.upper(), TA_JUSTIFY),
      'auto-crop-last-page': auto_crop, 'auto-crop-width': auto_crop,
      'horizontal-scale': 1.0})
  \<close>
\<close>

record call_args =
  a_font_path :: cval
  a_font_size :: rat
  a_dpi :: rat
  a_page_size :: string
  a_margin :: rat
  a_text_color :: string
  a_bg_color :: string
  a_alignment :: string
  a_auto_crop :: bool

text \<open>The defaults of the signature, for a given font path.\<close>

definition default_args :: "string \<Rightarrow> call_args" where
  "default_args fp =
     \<lparr>a_font_path = VStr fp, a_font_size = 9, a_dpi = 72, a_page_size = ''A4'', a_margin = 5,
      a_text_color = ''#000000'', a_bg_color = ''#FFFFFF'', a_alignment = ''JUSTIFY'',
      a_auto_crop = False\<rparr>"

definition explicit_layer :: "call_args \<Rightarrow> config" where
  "explicit_layer a =
     [''font-path'' \<mapsto> a_font_path a,
      ''font-size'' \<mapsto> VNum (a_font_size a),
      ''dpi'' \<mapsto> VNum (a_dpi a),
      ''page-size'' \<mapsto> VPage (dict_get PAGE_SIZE_MAP (upper (a_page_size a)) A4),
      ''margin-x'' \<mapsto> VNum (a_margin a),
      ''margin-y'' \<mapsto> VNum (a_margin a),
      ''font-color'' \<mapsto> VColor (a_text_color a),
      ''page-bg-color'' \<mapsto> VColor (a_bg_color a),
      ''para-bg-color'' \<mapsto> VColor (a_bg_color a),
      ''para-border-color'' \<mapsto> VColor (a_bg_color a),
      ''alignment'' \<mapsto> to_align (upper (a_alignment a)),
      ''auto-crop-last-page'' \<mapsto> VBool (a_auto_crop a),
      ''auto-crop-width'' \<mapsto> VBool (a_auto_crop a),
      ''horizontal-scale'' \<mapsto> VNum 1]"

text \<open>
  The conversions applied to the \<open>config\<close> argument before it is merged: two colours
  and the alignment.
\<close>

definition convert_override :: "config \<Rightarrow> config" where
  "convert_override config0 =
     (let config = convert_str ''font-color'' VColor config0 config0;
          config = convert_str ''page-bg-color'' VColor config config;
          config = convert_str ''alignment'' to_align config config
      in config)"

text \<open>
  \<^verbatim>\<open>
  base_config = {}
  if file_config: base_config.update(file_config)
  base_config.update({ ...the call arguments... })
  if config: ...conversions...; base_config.update(config)
  \<close>
  Updating with an empty dict changes nothing, so the two guards need no case of their
  own; \<open>None\<close> stands for no \<open>config\<close> argument.
\<close>

definition base_config :: "config \<Rightarrow> call_args \<Rightarrow> config option \<Rightarrow> config" where
  "base_config file_config a config =
     (let base = Map.empty ++ file_config;
          base = base ++ explicit_layer a
      in case config of None \<Rightarrow> base | Some c \<Rightarrow> base ++ convert_override c)"

section \<open>Batch items, files and directories\<close>

text \<open>
  A batch item is a dict read from the input JSON; these are the keys the source reads
  and writes (\<open>unique_id\<close>, \<open>context\<close>, \<open>config\<close>, \<open>image_paths\<close>).  \<open>None\<close>
  stands for a missing key (or a JSON \<open>null\<close>).
\<close>

record item =
  it_unique_id :: "string option"
  it_context :: "pystr option"
  it_config :: "config option"
  it_image_paths :: "string list list option"

text \<open>
  Paths are lists of components: \<open>os.path.join(d, name)\<close> is \<open>d @ [name]\<close> for a name
  that is one component, as identifiers and page file names are taken to be.  A file holds
  a PNG image, the lines of a ledger (a line that does not parse as JSON is \<open>None\<close>), the
  item list of an input file or the dict of a configuration file.
\<close>

type_synonym path = "string list"

datatype 'p content =
    Png "'p image"
  | Jsonl "item option list"
  | JsonItems "item list"
  | JsonConfig config

record 'p fs =
  dirs :: "path set"
  files :: "path \<rightharpoonup> 'p content"










section \<open>Rendering one text: \<open>text_to_images\<close>\<close>


























section \<open>The batch orchestrator\<close>








section \<open>Concrete inputs\<close>



definition config0 :: config where
  "config0 = [''font-path'' \<mapsto> VStr ''font.ttf'']"


definition item1 :: item where
  "item1 =
     \<lparr>it_unique_id = Some ''t1'', it_context = Some (lit ''hi''), it_config = None,
      it_image_paths = None\<rparr>"


text \<open>
  A batch item with empty content, and a fresh file system holding the configuration file
  and an input file with that item followed by \<open>t1\<close>.
\<close>

definition item_empty :: item where
  "item_empty =
     \<lparr>it_unique_id = Some ''t0'', it_context = Some [], it_config = None,
      it_image_paths = None\<rparr>"

definition fs2 :: "nat fs" where
  "fs2 =
     \<lparr>dirs = {[]},
      files = [[''config.json''] \<mapsto> JsonConfig config0,
               [''items.json''] \<mapsto> JsonItems [item_empty, item1]]\<rparr>"

section \<open>Properties of the text normalisation\<close>

lemma str_replace_append:
  "str_replace old new (a @ b) = str_replace old new a @ str_replace old new b"
  by (induction a) auto

lemma str_replace_concat_map:
  "str_replace old new t = concat (map (\<lambda>c. if c = old then new else [c]) t)"
  by (induction t) auto

lemma str_replace_concat:
  "str_replace old new (concat xss) = concat (map (str_replace old new) xss)"
  by (induction xss) (auto simp: str_replace_append)

lemma str_replace_empty_filter: "str_replace old [] t = filter (\<lambda>c. c \<noteq> old) t"
  by (induction t) auto

lemma strip_invisible_filter:
  "strip_invisible t = filter (\<lambda>c. c \<noteq> SHY \<and> c \<noteq> ZWSP) t"
  by (simp add: strip_invisible_def str_replace_empty_filter conj_commute)

lemma escape_per_char: "escape u = concat (map esc_char u)"
proof -
  have "str_replace LT (lit ''&lt;'') (str_replace GT (lit ''&gt;'')
          (if c = AMP then lit ''&amp;'' else [c])) = esc_char c" for c
    by (simp add: esc_char_def lit_def AMP_def LT_def GT_def)
  then show ?thesis
    unfolding escape_def
    by (simp add: str_replace_concat_map [of AMP] str_replace_concat o_def cong: map_cong)
qed

lemma replace_spaces_Nil: "replace_spaces [] = []"
  by (simp add: replace_spaces.simps)

lemma replace_spaces_other:
  "c \<noteq> SP \<Longrightarrow> replace_spaces (c # cs) = c # replace_spaces cs"
  by (subst replace_spaces.simps) simp

lemma takeWhile_run:
  "b = [] \<or> hd b \<noteq> SP \<Longrightarrow> takeWhile (\<lambda>c. c = SP) (replicate n SP @ b) = replicate n SP"
  by (induction n) (cases b; auto)+

lemma replace_spaces_run:
  assumes "b = [] \<or> hd b \<noteq> SP"
  shows "replace_spaces (replicate n SP @ b) =
           (if 2 \<le> n then concat (replicate n nbsp) else replicate n SP) @ replace_spaces b"
proof (cases "2 \<le> n")
  case True
  then show ?thesis
    by (subst replace_spaces.simps) (simp add: takeWhile_run [OF assms])
next
  case False
  then consider "n = 0" | "n = 1" by linarith
  then show ?thesis
  proof cases
    case 1
    then show ?thesis by simp
  next
    case 2
    have "replace_spaces (SP # b) = SP # replace_spaces b"
      using takeWhile_run [OF assms, of 1]
      by (subst replace_spaces.simps) simp
    with 2 show ?thesis by simp
  qed
qed

lemma replace_spaces_no_space: "SP \<notin> set t \<Longrightarrow> replace_spaces t = t"
  by (induction t) (auto simp: replace_spaces_Nil replace_spaces_other)

text \<open>No match of the pattern spans a position that a non-space character precedes.\<close>

lemma replace_spaces_append:
  "a = [] \<or> last a \<noteq> SP \<Longrightarrow> replace_spaces (a @ t) = replace_spaces a @ replace_spaces t"
proof (induction a rule: replace_spaces.induct)
  case (1 s)
  show ?case
  proof (cases s)
    case Nil
    then show ?thesis by (simp add: replace_spaces_Nil)
  next
    case (Cons c cs)
    define n where "n = length (takeWhile (\<lambda>c. c = SP) s)"
    show ?thesis
    proof (cases "c = SP")
      case False
      with Cons have n0: "n = 0" by (simp add: n_def)
      have "cs = [] \<or> last cs \<noteq> SP" using "1.prems" Cons by (auto split: if_splits)
      with "1.IH"(2) [OF n_def _ Cons] n0
      have "replace_spaces (cs @ t) = replace_spaces cs @ replace_spaces t"
        by simp
      with False Cons show ?thesis by (simp add: replace_spaces_other)
    next
      case True
      have s_split: "s = replicate n SP @ drop n s"
        unfolding n_def
        by (metis (mono_tags, lifting) append_take_drop_id replicate_length_same set_takeWhileD
            takeWhile_eq_take)
      have "last s \<noteq> SP" "s \<noteq> []" using "1.prems" Cons by auto
      have rest_ne: "drop n s \<noteq> []"
      proof
        assume "drop n s = []"
        with s_split have "s = replicate n SP" by simp
        with \<open>last s \<noteq> SP\<close> \<open>s \<noteq> []\<close> show False by (cases n) (auto split: if_splits)
      qed
      have hd_rest: "hd (drop n s) \<noteq> SP"
        unfolding n_def
        by (metis (mono_tags, lifting) dropWhile_eq_drop dropWhile_eq_Nil_conv hd_dropWhile
            n_def rest_ne)
      have last_rest: "last (drop n s) \<noteq> SP" using \<open>last s \<noteq> SP\<close> rest_ne by simp
      have npos: "0 < n" using True Cons by (simp add: n_def)
      have run1: "replace_spaces s =
          (if 2 \<le> n then concat (replicate n nbsp) else replicate n SP)
            @ replace_spaces (drop n s)"
        using replace_spaces_run [of "drop n s" n] hd_rest s_split by simp
      have run2: "replace_spaces (s @ t) =
          (if 2 \<le> n then concat (replicate n nbsp) else replicate n SP)
            @ replace_spaces (drop n s @ t)"
        using replace_spaces_run [of "drop n s @ t" n] hd_rest rest_ne s_split
        by (metis append.assoc hd_append2)
      have "replace_spaces (drop n s @ t) = replace_spaces (drop n s) @ replace_spaces t"
      proof (cases "2 \<le> n")
        case True
        from "1.IH"(1) [OF n_def True] last_rest rest_ne show ?thesis by simp
      next
        case False
        with npos have n1: "n = 1" by simp
        with s_split Cons True have "cs = drop n s" by simp
        with "1.IH"(2) [OF n_def False Cons] last_rest rest_ne show ?thesis by simp
      qed
      with run1 run2 show ?thesis by simp
    qed
  qed
qed

lemma replace_spaces_maximal_run:
  assumes "a = [] \<or> last a \<noteq> SP" and "b = [] \<or> hd b \<noteq> SP"
  shows "replace_spaces (a @ replicate n SP @ b) =
           replace_spaces a @ (if 2 \<le> n then concat (replicate n nbsp) else replicate n SP)
             @ replace_spaces b"
  using replace_spaces_append [OF assms(1)] replace_spaces_run [OF assms(2)] by simp

lemma split_nl_ne: "split_nl s \<noteq> []"
  by (induction s) (auto split: list.splits)

lemma split_nl_join: "str_join [NL] (split_nl s) = s"
proof (induction s)
  case Nil
  then show ?case by simp
next
  case (Cons c cs)
  obtain p ps where p: "split_nl cs = p # ps"
    using split_nl_ne [of cs] by (cases "split_nl cs") auto
  show ?case
  proof (cases "c = NL")
    case True
    with Cons p show ?thesis by simp
  next
    case False
    with Cons p show ?thesis by (cases ps) auto
  qed
qed

lemma split_nl_no_nl: "p \<in> set (split_nl s) \<Longrightarrow> NL \<notin> set p"
  by (induction s arbitrary: p) (auto split: if_splits list.splits)

lemma split_nl_length: "length (split_nl s) = Suc (count_list s NL)"
  using split_nl_ne by (induction s) (auto split: list.splits)

text \<open>
  Claim C8.  The text normalisation is a function of the text alone that applies, in this
  order: the removal of every soft hyphen and zero-width space; the escaping of \<open>&\<close>,
  \<open><\<close> and \<open>>\<close>, character by character; the replacement of every maximal run of
  two or more spaces by as many \<open>&nbsp;\<close> markers, a run of one space staying a space and
  everything outside the runs being treated on its own; and the split at the line feeds
  into the ordered pieces between them (joining the pieces with line feeds gives the text
  back, and no piece holds a line feed).  On \<open>a  b   c\<close> this gives two and then three
  markers.
\<close>

theorem text_normalisation_steps:
  "parts t = split_nl (replace_spaces (escape (strip_invisible t)))
   \<and> strip_invisible t = filter (\<lambda>c. c \<noteq> SHY \<and> c \<noteq> ZWSP) t
   \<and> escape u = concat (map esc_char u)
   \<and> ((a = [] \<or> last a \<noteq> SP) \<and> (b = [] \<or> hd b \<noteq> SP) \<longrightarrow>
        replace_spaces (a @ replicate n SP @ b) =
          replace_spaces a
            @ (if 2 \<le> n then concat (replicate n nbsp) else replicate n SP)
            @ replace_spaces b)
   \<and> (SP \<notin> set v \<longrightarrow> replace_spaces v = v)
   \<and> str_join [NL] (split_nl w) = w
   \<and> (\<forall>p \<in> set (split_nl w). NL \<notin> set p)
   \<and> length (split_nl w) = Suc (count_list w NL)
   \<and> parts (lit ''a  b   c'') = [lit ''a&nbsp;&nbsp;b&nbsp;&nbsp;&nbsp;c'']
   \<and> parts (lit ''a b'') = [lit ''a b'']"
proof -
  have ex1: "parts (lit ''a  b   c'') = [lit ''a&nbsp;&nbsp;b&nbsp;&nbsp;&nbsp;c'']"
    by code_simp
  have ex2: "parts (lit ''a b'') = [lit ''a b'']"
    by code_simp
  show ?thesis
    using ex1 ex2
    by (simp add: parts_def processed_text_def strip_invisible_filter escape_per_char
        replace_spaces_maximal_run replace_spaces_no_space split_nl_join split_nl_no_nl
        split_nl_length del: replace_spaces.simps)
qed

theorem text_normalisation_steps_witness:
  "last [97::nat] \<noteq> SP \<and> hd [98::nat] \<noteq> SP \<and> SP \<notin> set [97::nat, 98]
   \<and> replace_spaces ([97] @ replicate 2 SP @ [98]) = [97] @ nbsp @ nbsp @ [98]
   \<and> replace_spaces [97, 98] = [97, 98]
   \<and> NL \<notin> set [97::nat] \<and> NL \<notin> set [98::nat]
   \<and> split_nl [97, NL, 98] = [[97], [98]]"
  using text_normalisation_steps [of "[97]" "[97]" "[97]" "[98]" 2 "[97, 98]" "[97, NL, 98]"]
  by (simp add: SP_def NL_def replace_spaces_Nil replace_spaces_other eval_nat_numeral)

section \<open>Properties of the crop policies\<close>

lemma crop_size [simp]:
  "img_width (crop img (l, u, r, b)) = r - l" "img_height (crop img (l, u, r, b)) = b - u"
  by (simp_all add: crop_def)



lemma fg_mask_length: "length (fg_mask k tol g) = length g"
  by (simp add: fg_mask_def split: option.splits)

lemma fg_mask_row_length: "i < length g \<Longrightarrow> length (fg_mask k tol g ! i) = length (g ! i)"
  by (simp add: fg_mask_def split: option.splits)

lemma blank_any_rows: "blank msk \<Longrightarrow> any_rows msk = []"
  by (auto simp: blank_def any_rows_def list_all_iff list_ex_iff filter_empty_conv)

lemma blank_any_cols:
  assumes "blank msk" and "list_all (\<lambda>r. length r = w) msk"
  shows "any_cols w msk = []"
proof -
  have "\<not> row ! j" if "row \<in> set msk" "j < w" for row j
  proof -
    from that assms(2) have "j < length row" by (simp add: list_all_iff)
    then have "row ! j \<in> set row" by simp
    with assms(1) that(1) show ?thesis by (auto simp: blank_def list_all_iff)
  qed
  then show ?thesis by (auto simp: any_cols_def list_ex_iff filter_empty_conv)
qed



lemma wf_mask:
  "wf_image img \<Longrightarrow> list_all (\<lambda>r. length r = img_width img) (fg_mask k tol (gray L img))"
  by (auto simp: wf_image_def fg_mask_def gray_def list_all_iff split: option.splits)


lemma page_white_wf: "wf_image page_white"
  by (simp add: wf_image_def page_white_def list_all_iff)


lemma page_dot_content_mask:
  "fg_mask 10 8 (gray id page_dot) = [replicate 24 False, replicate 12 False @ [True] @ replicate 11 False]"
  by code_simp

lemma page_dot_cols:
  "any_cols 24 [replicate 24 False, replicate 12 False @ [True] @ replicate 11 False] = [12]"
  by code_simp

lemma page_dot_rows:
  "any_rows [replicate 24 False, replicate 12 False @ [True] @ replicate 11 False] = [1]"
  by code_simp




lemma page_white_blank:
  "blank (fg_mask 2 5 (gray id page_white))" "blank (fg_mask 10 8 (gray id page_white))"
  by code_simp+

text \<open>
  Claim C3.  In \<open>convert_text_to_images\<close>, a page processed with the content-crop flag
  set is exactly the content-cropped page: the axis crop (width trim and last-page
  vertical trim) changes nothing more, whatever the two axis-crop flags, the margins and
  the page index are.
\<close>

theorem content_crop_exclusive:
  "crop_page_simple L True auto_crop_width auto_crop_last_page margin_x margin_y offset num_pages img
     = content_crop L img"
  by (simp add: crop_page_simple_def)

lemma page_dot_size: "img_width page_dot = 24" "img_height page_dot = 2"
  by (simp_all add: page_dot_def)

text \<open>
  Claim C4, evaluated on the page with one black pixel in column 12: the bounding box of
  the foreground with a margin of 10 pixels is columns 2 to 22, all of them on the page of
  width 24, but the content crop keeps the box \<open>(2, 0, 22, 2)\<close>, that is columns 2 to 21,
  a page of width 20: the margin on the right is 9 pixels (and so it is at the bottom),
  since \<open>cols[-1] + 10\<close> is used as the exclusive right edge of the crop.
\<close>

theorem content_crop_margin_short:
  "content_crop_box id page_dot = Some (2, 0, 22, 2)
   \<and> img_width (content_crop id page_dot) = 20
   \<and> last (any_cols (img_width page_dot) (fg_mask 10 8 (gray id page_dot))) = 12
   \<and> 12 + 10 < img_width page_dot"
proof -
  have box: "content_crop_box id page_dot = Some (2, 0, 22, 2)"
    unfolding content_crop_box_def Let_def page_dot_content_mask page_dot_size
      page_dot_cols page_dot_rows
    by simp
  have cols: "any_cols 24 (fg_mask 10 8 (gray id page_dot)) = [12]"
    unfolding page_dot_content_mask page_dot_cols by (rule refl)
  show ?thesis
    unfolding content_crop_def box page_dot_size cols by simp
qed




text \<open>
  Claim C7.  A page without foreground pixels (for the mask of the policy at work) leaves
  the crop step as it entered it, under the content crop, the width trim and the
  last-page vertical trim, in both rendering functions: no crop is applied, so none to an
  empty region.
\<close>

theorem blank_page_no_crop:
  assumes "wf_image img"
  shows "(blank (fg_mask 10 8 (gray L img)) \<longrightarrow>
            crop_page_simple L True acw aclp mx my offset n img = img)
       \<and> (blank (fg_mask 2 5 (gray L img)) \<longrightarrow>
            crop_page_simple L False acw aclp mx my offset n img = img
          \<and> crop_page L acw aclp mx my offset n img = img)"
proof -
  have content: "content_crop L img = img" if "blank (fg_mask 10 8 (gray L img))"
    using blank_any_rows [OF that] by (simp add: content_crop_def content_crop_box_def Let_def)
  have axis: "axis_crop L acw aclp mx my offset n img = img"
    if b: "blank (fg_mask 2 5 (gray L img))"
    using blank_any_rows [OF b] blank_any_cols [OF b wf_mask [OF assms]]
    by (simp add: axis_crop_def width_trim_def vertical_trim_def Let_def)
  show ?thesis
    using content axis by (simp add: crop_page_simple_def crop_page_def)
qed

theorem blank_page_no_crop_witness:
  "wf_image page_white \<and> blank (fg_mask 10 8 (gray id page_white))
   \<and> blank (fg_mask 2 5 (gray id page_white))
   \<and> crop_page_simple id True True True 5 5 1 1 page_white = page_white
   \<and> crop_page_simple id False True True 5 5 1 1 page_white = page_white
   \<and> crop_page id True True 5 5 1 1 page_white = page_white"
  using blank_page_no_crop [OF page_white_wf, of id True True 5 5 1 1]
    page_white_wf page_white_blank
  by simp


section \<open>Properties of the configuration layers\<close>

text \<open>
  The precedence the code of \<open>convert_text_to_images\<close> gives: the \<open>config\<close> argument
  first, then the call arguments (with the defaults of the signature), then the
  configuration file.
\<close>

lemma base_config_lookup:
  "base_config file_config a (Some c) k =
     (case convert_override c k of
        Some v \<Rightarrow> Some v
      | None \<Rightarrow> (case explicit_layer a k of Some v \<Rightarrow> Some v | None \<Rightarrow> file_config k))"
  by (simp add: base_config_def map_add_def split: option.splits)

text \<open>
  Claim C2, evaluated: a call with the explicit argument \<open>font_size=12\<close> and the override
  map \<open>config={'font-size': 20}\<close> resolves \<open>font-size\<close> to 20, the value of the override
  map; and a call that leaves \<open>dpi\<close> out, with a configuration file that sets it to 300,
  resolves \<open>dpi\<close> to the default 72 of the signature.
\<close>

theorem override_map_beats_explicit_argument:
  "base_config Map.empty ((default_args ''font.ttf'')\<lparr>a_font_size := 12\<rparr>)
     (Some [''font-size'' \<mapsto> VNum 20]) ''font-size'' = Some (VNum 20)
   \<and> base_config [''dpi'' \<mapsto> VNum 300] (default_args ''font.ttf'') None ''dpi''
       = Some (VNum 72)"
  by (simp add: base_config_def convert_override_def convert_str_def explicit_layer_def
      default_args_def)

section \<open>Properties of the file system operations\<close>










section \<open>Properties of the page loop\<close>






























section \<open>Properties of the batch orchestrator\<close>


























end
